theory Spec2Isabelle
  imports Main "HOL-Library.Sublist"
begin

section \<open>Python strings\<close>

text \<open>
  A Python \<^verbatim>\<open>str\<close> is a sequence of Unicode code points; a code point is modelled by
  its number. Source literals are written as HOL strings and converted by \<open>py\<close>.
\<close>

type_synonym pystr = "nat list"

definition py :: "string \<Rightarrow> pystr" where
  "py s = map of_char s"

text \<open>
  \<^verbatim>\<open>str.strip()\<close> without argument removes leading and trailing white space; a code
  point is white space for \<^verbatim>\<open>str\<close> exactly when it is in the table below (the
  interpreter's \<^verbatim>\<open>_PyUnicode_IsWhitespace\<close>).
\<close>

definition isspace :: "nat \<Rightarrow> bool" where
  "isspace c \<longleftrightarrow>
     (0x09 \<le> c \<and> c \<le> 0x0D) \<or> (0x1C \<le> c \<and> c \<le> 0x20) \<or> c = 0x85 \<or> c = 0xA0 \<or>
     c = 0x1680 \<or> (0x2000 \<le> c \<and> c \<le> 0x200A) \<or> c = 0x2028 \<or> c = 0x2029 \<or>
     c = 0x202F \<or> c = 0x205F \<or> c = 0x3000"

definition strip :: "pystr \<Rightarrow> pystr" where
  "strip s = rev (dropWhile isspace (rev (dropWhile isspace s)))"

text \<open>
  \<^verbatim>\<open>s.split(sep)\<close> for a one-character separator: the pieces between the
  occurrences of the separator, empty pieces included; the empty string gives one
  empty piece.
\<close>

fun split :: "nat \<Rightarrow> pystr \<Rightarrow> pystr list" where
  "split sep [] = [[]]"
| "split sep (c # cs) =
     (if c = sep then [] # split sep cs
      else (case split sep cs of
              [] \<Rightarrow> [[c]]
            | p # ps \<Rightarrow> (c # p) # ps))"

definition comma :: nat where
  "comma = 0x2C"

section \<open>Element trees\<close>

text \<open>
  An \<^verbatim>\<open>xml.etree.ElementTree.Element\<close> as the converter uses it: a tag, an optional
  text and the list of child elements (no attribute and no tail is ever set).
\<close>

datatype element = Element (tag: pystr) (text': "pystr option") (children: "element list")

text \<open>\<^verbatim>\<open>ET.SubElement(parent, t).text = v\<close>: a child without children of its own.\<close>

definition SubElement_text :: "string \<Rightarrow> pystr \<Rightarrow> element" where
  "SubElement_text t v = Element (py t) (Some v) []"

text \<open>\<^verbatim>\<open>Element.iter(t)\<close>: the element itself and its descendants with tag \<open>t\<close>, in document order.\<close>

fun iter :: "pystr \<Rightarrow> element \<Rightarrow> element list" where
  "iter t (Element g x cs) = (if g = t then [Element g x cs] else []) @ concat (map (iter t) cs)"

text \<open>\<^verbatim>\<open>Element.findall(t)\<close>: the direct children with tag \<open>t\<close>, in order.\<close>

definition findall :: "pystr \<Rightarrow> element \<Rightarrow> element list" where
  "findall t e = filter (\<lambda>c. tag c = t) (children e)"

text \<open>\<^verbatim>\<open>Element.findtext(t)\<close>: the text of the first child with tag \<open>t\<close>.\<close>

definition findtext :: "pystr \<Rightarrow> element \<Rightarrow> pystr option" where
  "findtext t e = (case findall t e of [] \<Rightarrow> None | c # _ \<Rightarrow> text' c)"

section \<open>The converter: \<^verbatim>\<open>create_xml_structure\<close>\<close>

datatype py_error =
    StopIteration
  | ValueError
  | UnicodeDecodeError
  | CsvError
  | ExpatError
  | FileNotFoundError
  | IsADirectoryError
  | NotADirectoryError
  | PermissionError

text \<open>
  The argument of \<^verbatim>\<open>create_xml_structure\<close> is an iterator of rows. It is modelled by
  the list of what the iterator does when it is advanced: \<open>Inr row\<close> where it yields a
  row (a list of fields), \<open>Inl e\<close> where it raises \<open>e\<close>; at the end of the list it is
  exhausted.
\<close>

type_synonym row = "pystr list"
type_synonym csv_data = "(py_error + row) list"

text \<open>The f-string wrapping a definition in the HTML paragraph.\<close>

definition definition_html :: "pystr \<Rightarrow> pystr" where
  \<open>definition_html definition =
     py ''<p dir="ltr" style="text-align: left;">'' @ definition @ py ''<br/></p>''\<close>

text \<open>\<^verbatim>\<open>[tag.strip() for tag in tags.split(',') if tag.strip()]\<close>\<close>

definition tag_list :: "pystr \<Rightarrow> pystr list" where
  "tag_list tags = map strip (filter (\<lambda>tag. strip tag \<noteq> []) (split comma tags))"

definition alias_element :: "pystr \<Rightarrow> element" where
  "alias_element tag_name = Element (py ''ALIAS'') None [SubElement_text ''NAME'' tag_name]"

text \<open>The body of the loop, after the row has been unpacked: the ENTRY element of one row.\<close>

definition entry :: "pystr \<Rightarrow> pystr \<Rightarrow> pystr \<Rightarrow> element" where
  "entry concept definition tags =
     Element (py ''ENTRY'') None
       [SubElement_text ''CONCEPT'' concept,
        SubElement_text ''DEFINITION'' (definition_html definition),
        SubElement_text ''FORMAT'' (py ''1''),
        SubElement_text ''DEFINITIONTRUST'' (py ''0''),
        SubElement_text ''USEDYNALINK'' (py ''0''),
        SubElement_text ''CASESENSITIVE'' (py ''0''),
        SubElement_text ''FULLMATCH'' (py ''0''),
        SubElement_text ''TEACHERENTRY'' (py ''1''),
        Element (py ''ALIASES'') None (map alias_element (tag_list tags))]"

text \<open>
  \<^verbatim>\<open>for row in csv_data: concept, definition, tags = row; ...\<close> The first argument is
  the list of children the ENTRIES element has so far. Advancing the iterator may
  raise; unpacking a row that has not exactly three fields raises \<^verbatim>\<open>ValueError\<close>.
\<close>

fun entries_loop :: "element list \<Rightarrow> csv_data \<Rightarrow> py_error + element list" where
  "entries_loop es [] = Inr es"
| "entries_loop es (Inl e # rest) = Inl e"
| "entries_loop es (Inr [concept, definition, tags] # rest) =
     entries_loop (es @ [entry concept definition tags]) rest"
| "entries_loop es (Inr _ # rest) = Inl ValueError"

text \<open>The tree around the entries: GLOSSARY, INFO with its static fields, ENTRIES.\<close>

definition glossary :: "element list \<Rightarrow> element" where
  "glossary es =
     Element (py ''GLOSSARY'') None
       [Element (py ''INFO'') None
          [SubElement_text ''NAME'' (py ''Fogalomt'' @ [0xE1] @ py ''r''),
           SubElement_text ''INTRO'' [],
           SubElement_text ''INTROFORMAT'' (py ''1''),
           SubElement_text ''ALLOWDUPLICATEDENTRIES'' (py ''0''),
           SubElement_text ''DISPLAYFORMAT'' (py ''dictionary''),
           SubElement_text ''SHOWSPECIAL'' (py ''1''),
           SubElement_text ''SHOWALPHABET'' (py ''1''),
           SubElement_text ''SHOWALL'' (py ''1''),
           SubElement_text ''ALLOWCOMMENTS'' (py ''0''),
           SubElement_text ''USEDYNALINK'' (py ''1''),
           SubElement_text ''DEFAULTAPPROVAL'' (py ''1''),
           SubElement_text ''GLOBALGLOSSARY'' (py ''0''),
           SubElement_text ''ENTBYPAGE'' (py ''10''),
           Element (py ''ENTRIES'') None es]]"

text \<open>
  \<^verbatim>\<open>next(csv_data)\<close> skips the first row: on an exhausted iterator it raises
  \<^verbatim>\<open>StopIteration\<close>, and an error of the iterator itself is passed on.
\<close>

definition create_xml_structure :: "csv_data \<Rightarrow> py_error + element" where
  "create_xml_structure csv_data =
     (case csv_data of
        [] \<Rightarrow> Inl StopIteration
      | Inl e # _ \<Rightarrow> Inl e
      | Inr header # rest \<Rightarrow>
          (case entries_loop [] rest of
             Inl e \<Rightarrow> Inl e
           | Inr es \<Rightarrow> Inr (glossary es)))"

section \<open>Paths\<close>

definition slash :: nat where
  "slash = 0x2F"

definition dot :: nat where
  "dot = 0x2E"

text \<open>\<^verbatim>\<open>p.rfind(c)\<close> for a character \<open>c\<close>: its highest index in \<open>p\<close>, or \<open>-1\<close>.\<close>

definition rfind :: "pystr \<Rightarrow> nat \<Rightarrow> int" where
  "rfind p c =
     (if c \<in> set p then int (length p) - 1 - int (length (takeWhile (\<lambda>x. x \<noteq> c) (rev p)))
      else - 1)"

text \<open>
  \<^verbatim>\<open>os.path.splitext\<close> (the library's \<^verbatim>\<open>genericpath._splitext\<close> with separator
  \<^verbatim>\<open>/\<close> and extension separator \<^verbatim>\<open>.\<close>): the extension starts at the last dot of
  the last path component, unless that component has only dots before it. The loop
  is \<^verbatim>\<open>while filenameIndex < dotIndex\<close>.
\<close>

function splitext_loop :: "pystr \<Rightarrow> int \<Rightarrow> int \<Rightarrow> pystr \<times> pystr" where
  "splitext_loop p filenameIndex dotIndex =
     (if filenameIndex < dotIndex then
        if take 1 (drop (nat filenameIndex) p) \<noteq> [dot]
        then (take (nat dotIndex) p, drop (nat dotIndex) p)
        else splitext_loop p (filenameIndex + 1) dotIndex
      else (p, []))"
  by pat_completeness auto
termination
  by (relation "measure (\<lambda>(p, filenameIndex, dotIndex). nat (dotIndex - filenameIndex))") auto

declare splitext_loop.simps [simp del]

definition splitext :: "pystr \<Rightarrow> pystr \<times> pystr" where
  "splitext p =
     (let sepIndex = rfind p slash;
          dotIndex = rfind p dot
      in if dotIndex > sepIndex then splitext_loop p (sepIndex + 1) dotIndex else (p, []))"

text \<open>\<^verbatim>\<open>os.path.basename\<close>: the part after the last slash.\<close>

definition basename :: "pystr \<Rightarrow> pystr" where
  "basename p = drop (nat (rfind p slash + 1)) p"

section \<open>The file system\<close>

text \<open>
  What \<^verbatim>\<open>open\<close> does with a path is for the operating system to say, so the file
  system gives for every path string the state the system finds it in:

    \<^item> \<open>File content\<close>: a regular file that can be read and written;
    \<^item> \<open>ReadOnly content e\<close>: a regular file that can be read, opening it for writing
      raises \<open>e\<close> (\<^verbatim>\<open>PermissionError\<close>);
    \<^item> \<open>Absent\<close>: the path names nothing and a file can be created there; opening it
      for reading raises \<^verbatim>\<open>FileNotFoundError\<close>;
    \<^item> \<open>Refused r w\<close>: opening it for reading raises \<open>r\<close>, opening it for writing
      raises \<open>w\<close>, and nothing changes.

  For instance a directory is \<open>Refused IsADirectoryError IsADirectoryError\<close>; a path
  with a directory on the way that does not exist (\<^verbatim>\<open>out/terms.xml\<close> without
  \<^verbatim>\<open>out\<close>), and the empty path, are \<open>Refused FileNotFoundError FileNotFoundError\<close>;
  a path with a regular file on the way (\<^verbatim>\<open>terms.csv/x.csv\<close> where \<^verbatim>\<open>terms.csv\<close>
  is a file) is \<open>Refused NotADirectoryError NotADirectoryError\<close>; a path ending
  with a slash that names nothing (\<^verbatim>\<open>out/\<close>) is
  \<open>Refused FileNotFoundError IsADirectoryError\<close>; a file that may not be read is
  \<open>Refused PermissionError PermissionError\<close>. The type \<open>'f\<close> of file contents is left
  open.
\<close>

datatype 'f node =
    File 'f
  | ReadOnly 'f py_error
  | Absent
  | Refused py_error py_error

type_synonym 'f filesystem = "pystr \<Rightarrow> 'f node"

text \<open>\<^verbatim>\<open>open(path, 'r', encoding='utf-8')\<close>: the content of the file, or the error raised.\<close>

definition open_r :: "'f filesystem \<Rightarrow> pystr \<Rightarrow> py_error + 'f" where
  "open_r fs path =
     (case fs path of
        File content \<Rightarrow> Inr content
      | ReadOnly content e \<Rightarrow> Inr content
      | Absent \<Rightarrow> Inl FileNotFoundError
      | Refused r w \<Rightarrow> Inl r)"

text \<open>
  \<^verbatim>\<open>with open(path, 'w', encoding='utf-8') as f: f.write(...)\<close>, with the bytes to
  store: the file is created or replaced, or the error is raised and the file system
  stays as it is.
\<close>

definition open_w_write :: "'f filesystem \<Rightarrow> pystr \<Rightarrow> 'f \<Rightarrow> py_error + 'f filesystem" where
  "open_w_write fs path content =
     (case fs path of
        File old \<Rightarrow> Inr (fs(path := File content))
      | ReadOnly old e \<Rightarrow> Inl e
      | Absent \<Rightarrow> Inr (fs(path := File content))
      | Refused r w \<Rightarrow> Inl w)"

section \<open>Serialisation\<close>

text \<open>
  \<^verbatim>\<open>minidom.parseString(ET.tostring(xml_data, 'utf-8'))\<close> is modelled by what it does to
  the tree. The parser rejects a document with a character outside the XML character
  range (\<^verbatim>\<open>ExpatError\<close>); it turns every line end of a text into a line feed; an
  element without text and children has no child node; a text becomes one text
  node before the child elements.
\<close>

definition xml_char :: "nat \<Rightarrow> bool" where
  "xml_char c \<longleftrightarrow>
     c = 0x9 \<or> c = 0xA \<or> c = 0xD \<or> (0x20 \<le> c \<and> c \<le> 0xD7FF) \<or>
     (0xE000 \<le> c \<and> c \<le> 0xFFFD) \<or> (0x10000 \<le> c \<and> c \<le> 0x10FFFF)"

fun well_formed :: "element \<Rightarrow> bool" where
  "well_formed (Element g x cs) =
     ((case x of None \<Rightarrow> True | Some s \<Rightarrow> list_all xml_char s) \<and> list_all well_formed cs)"

fun newlines :: "pystr \<Rightarrow> pystr" where
  "newlines (c # d # cs) =
     (if c = 0xD \<and> d = 0xA then 0xA # newlines cs
      else if c = 0xD then 0xA # newlines (d # cs)
      else c # newlines (d # cs))"
| "newlines [c] = (if c = 0xD then [0xA] else [c])"
| "newlines [] = []"

datatype dom_node = DElement (tagName: pystr) (childNodes: "dom_node list") | DText (data: pystr)

fun to_dom :: "element \<Rightarrow> dom_node" where
  "to_dom (Element g x cs) =
     DElement g
       ((case x of
           None \<Rightarrow> []
         | Some s \<Rightarrow> if s = [] then [] else [DText (newlines s)])
        @ map to_dom cs)"

definition reparsed :: "element \<Rightarrow> py_error + dom_node" where
  "reparsed xml_data = (if well_formed xml_data then Inr (to_dom xml_data) else Inl ExpatError)"

text \<open>\<^verbatim>\<open>s.replace(c, new)\<close> for a one-character \<open>c\<close>.\<close>

definition replace :: "nat \<Rightarrow> pystr \<Rightarrow> pystr \<Rightarrow> pystr" where
  "replace c new s = concat (map (\<lambda>x. if x = c then new else [x]) s)"

text \<open>
  \<^verbatim>\<open>minidom._write_data\<close>, the four replacements in the library's order, and
  \<^verbatim>\<open>writexml\<close> of element and text nodes with \<^verbatim>\<open>addindent\<close> two blanks and \<^verbatim>\<open>newl\<close> a
  line feed, as \<^verbatim>\<open>toprettyxml(indent="  ")\<close> calls them.
\<close>

definition write_data :: "pystr \<Rightarrow> pystr" where
  \<open>write_data d =
     replace 0x3E (py ''&gt;'') (replace 0x22 (py ''&quot;'')
       (replace 0x3C (py ''&lt;'') (replace 0x26 (py ''&amp;'') d)))\<close>

definition addindent :: pystr where
  "addindent = py ''  ''"

definition newl :: pystr where
  "newl = [0xA]"

fun writexml :: "dom_node \<Rightarrow> pystr \<Rightarrow> pystr" where
  "writexml (DText d) indent = write_data (indent @ d @ newl)"
| "writexml (DElement t ns) indent =
     indent @ py ''<'' @ t @
     (if ns \<noteq> [] then
        py ''>'' @
        (case ns of
           [DText d] \<Rightarrow> write_data d
         | _ \<Rightarrow> newl @ concat (map (\<lambda>n. writexml n (indent @ addindent)) ns) @ indent)
        @ py ''</'' @ t @ py ''>'' @ newl
      else py ''/>'' @ newl)"

definition toprettyxml :: "dom_node \<Rightarrow> pystr" where
  \<open>toprettyxml root = py ''<?xml version="1.0" encoding="UTF-8"?>'' @ newl @ writexml root []\<close>

section \<open>The program: \<^verbatim>\<open>main\<close>\<close>

record args =
  input_csv :: pystr
  output_xml :: "pystr option"

text \<open>
  What the run takes from the libraries and leaves open here: the rows that
  \<^verbatim>\<open>csv.reader(csv_file, delimiter=';')\<close> yields for a file content read as UTF-8 text
  (with \<open>Inl\<close> where reading or parsing raises), and the bytes written for a text.
\<close>

record 'f lib =
  csv_reader :: "'f \<Rightarrow> csv_data"
  encode :: "pystr \<Rightarrow> 'f"

datatype status = Returned | Uncaught py_error

record 'f outcome =
  files :: "'f filesystem"
  stdout :: "pystr list"
  status :: status

text \<open>\<^verbatim>\<open>if not output_xml_path: base, _ = os.path.splitext(args.input_csv); ...\<close>\<close>

definition output_xml_path :: "args \<Rightarrow> pystr" where
  "output_xml_path a =
     (case output_xml a of
        None \<Rightarrow> fst (splitext (input_csv a)) @ py ''.xml''
      | Some path \<Rightarrow> if path = [] then fst (splitext (input_csv a)) @ py ''.xml'' else path)"

text \<open>A path between single quotes, as the two messages print it.\<close>

definition quoted :: "pystr \<Rightarrow> pystr" where
  "quoted s = [0x27] @ s @ [0x27]"

text \<open>
  The \<^verbatim>\<open>except FileNotFoundError\<close> clause around the whole body: that error prints the
  message and \<^verbatim>\<open>main\<close> returns; any other error leaves \<^verbatim>\<open>main\<close>.
\<close>

definition except :: "args \<Rightarrow> 'f filesystem \<Rightarrow> py_error \<Rightarrow> 'f outcome" where
  "except a fs e =
     (if e = FileNotFoundError
      then \<lparr>files = fs,
            stdout = [py ''Error: Input file not found at '' @ quoted (input_csv a)],
            status = Returned\<rparr>
      else \<lparr>files = fs, stdout = [], status = Uncaught e\<rparr>)"

definition main :: "'f lib \<Rightarrow> args \<Rightarrow> 'f filesystem \<Rightarrow> 'f outcome" where
  "main l a fs =
     (case open_r fs (input_csv a) of
        Inl e \<Rightarrow> except a fs e
      | Inr csv_file \<Rightarrow>
          (case create_xml_structure (csv_reader l csv_file) of
             Inl e \<Rightarrow> except a fs e
           | Inr xml_data \<Rightarrow>
               (case reparsed xml_data of
                  Inl e \<Rightarrow> except a fs e
                | Inr document \<Rightarrow>
                    (case open_w_write fs (output_xml_path a) (encode l (toprettyxml document)) of
                       Inl e \<Rightarrow> except a fs e
                     | Inr fs' \<Rightarrow>
                         \<lparr>files = fs',
                          stdout = [py ''Successfully converted '' @ quoted (input_csv a)
                                    @ py '' to '' @ quoted (output_xml_path a)],
                          status = Returned\<rparr>))))"

text \<open>
  The script calls \<^verbatim>\<open>main()\<close> and ends: the exit status of the process is 0 when
  \<^verbatim>\<open>main\<close> returns and 1 when an exception leaves it.
\<close>

definition exit_status :: "status \<Rightarrow> nat" where
  "exit_status s = (case s of Returned \<Rightarrow> 0 | Uncaught e \<Rightarrow> 1)"

section \<open>A library instance for concrete runs\<close>

text \<open>
  File contents as texts of ASCII characters without quote characters and carriage
  returns: the reader yields one row for each line, the fields between the
  semicolons, and no field for an empty line; the bytes of a text are the text.
\<close>

definition semicolon :: nat where
  "semicolon = 0x3B"

definition lines :: "pystr \<Rightarrow> pystr list" where
  "lines s = (let ls = split 0xA s in if last ls = [] then butlast ls else ls)"

definition plain_csv_reader :: "pystr \<Rightarrow> csv_data" where
  "plain_csv_reader s = map (\<lambda>line. Inr (if line = [] then [] else split semicolon line)) (lines s)"

definition plain_lib :: "pystr lib" where
  "plain_lib = \<lparr>csv_reader = plain_csv_reader, encode = (\<lambda>s. s)\<rparr>"

section \<open>Notions of the specification\<close>

text \<open>
  The tokens of a tag field in the specification's words: split on commas, trim each
  piece, discard the empty ones.
\<close>

definition tokens :: "pystr \<Rightarrow> pystr list" where
  "tokens tags = filter (\<lambda>t. t \<noteq> []) (map strip (split comma tags))"

text \<open>
  A path \<open>p\<close> has the root \<open>u\<close> and the extension \<open>.v\<close>: the extension runs from the
  last dot to the end, lies in the last component of the path, and that component has
  more than dots before it.
\<close>

definition extension_of :: "pystr \<Rightarrow> pystr \<Rightarrow> pystr \<Rightarrow> bool" where
  "extension_of p u v \<longleftrightarrow>
     p = u @ dot # v \<and> dot \<notin> set v \<and> slash \<notin> set v \<and> list_ex (\<lambda>c. c \<noteq> dot) (basename u)"

text \<open>The entry of a row of three fields.\<close>

definition row_entry :: "row \<Rightarrow> element" where
  "row_entry r = entry (r ! 0) (r ! 1) (r ! 2)"

section \<open>Strings\<close>

lemma py_eq_iff [simp]: "py s = py t \<longleftrightarrow> s = t"
  by (simp add: py_def inj_of_char)

lemma split_not_Nil: "split sep s \<noteq> []"
  by (induction s) (auto split: list.splits)

lemma length_split: "length (split sep s) = Suc (count_list s sep)"
  by (induction s) (auto split: list.splits simp: split_not_Nil)

lemma split_pieces: "p \<in> set (split sep s) \<Longrightarrow> set p \<subseteq> set s - {sep}"
proof (induction s arbitrary: p)
  case Nil
  then show ?case by simp
next
  case (Cons c cs)
  show ?case
  proof (cases "c = sep")
    case True
    with Cons show ?thesis by auto
  next
    case False
    obtain q qs where q: "split sep cs = q # qs"
      using split_not_Nil [of sep cs] by (cases "split sep cs") auto
    with False Cons.prems have "p = c # q \<or> p \<in> set qs" by auto
    then show ?thesis
    proof
      assume "p = c # q"
      moreover have "set q \<subseteq> set cs - {sep}" using Cons.IH [of q] q by simp
      ultimately show ?thesis using False by auto
    next
      assume "p \<in> set qs"
      then have "set p \<subseteq> set cs - {sep}" using Cons.IH [of p] q by simp
      then show ?thesis by auto
    qed
  qed
qed

lemma dropWhile_all_iff: "(\<forall>x \<in> set (dropWhile P s). P x) \<longleftrightarrow> (\<forall>x \<in> set s. P x)"
proof
  assume a: "\<forall>x \<in> set (dropWhile P s). P x"
  have "dropWhile P s = []"
  proof (rule ccontr)
    assume n: "dropWhile P s \<noteq> []"
    then have "\<not> P (hd (dropWhile P s))" by (rule hd_dropWhile)
    moreover have "hd (dropWhile P s) \<in> set (dropWhile P s)" using n by simp
    ultimately show False using a by blast
  qed
  then show "\<forall>x \<in> set s. P x" by simp
next
  assume "\<forall>x \<in> set s. P x"
  then show "\<forall>x \<in> set (dropWhile P s). P x" by (auto dest: set_dropWhileD)
qed

lemma strip_Nil_iff: "strip s = [] \<longleftrightarrow> (\<forall>c \<in> set s. isspace c)"
  by (simp add: strip_def dropWhile_all_iff)

lemma tag_list_tokens: "tag_list tags = tokens tags"
  by (simp add: tag_list_def tokens_def filter_map comp_def)

lemma tokens_blank:
  assumes "\<forall>c \<in> set tags. c = comma \<or> isspace c"
  shows "tokens tags = []"
proof -
  have "strip p = []" if "p \<in> set (split comma tags)" for p
    using split_pieces [OF that] assms by (auto simp: strip_Nil_iff)
  then show ?thesis
    by (simp add: tokens_def filter_empty_conv)
qed

section \<open>The tree that \<^verbatim>\<open>create_xml_structure\<close> builds\<close>

lemma iter_SubElement_text:
  "iter t (SubElement_text g v) = (if py g = t then [SubElement_text g v] else [])"
  by (simp add: SubElement_text_def)

lemma iter_ENTRY_alias: "iter (py ''ENTRY'') (alias_element n) = []"
  by (simp add: alias_element_def iter_SubElement_text)

lemma iter_ENTRY_entry: "iter (py ''ENTRY'') (entry c d t) = [entry c d t]"
  by (simp add: entry_def iter_SubElement_text iter_ENTRY_alias)

lemma iter_ENTRY_glossary:
  "iter (py ''ENTRY'') (glossary (map row_entry rows)) = map row_entry rows"
  by (simp add: glossary_def iter_SubElement_text iter_ENTRY_entry map_concat comp_def row_entry_def)

lemma findtext_CONCEPT: "findtext (py ''CONCEPT'') (entry c d t) = Some c"
  by (simp add: findtext_def findall_def entry_def SubElement_text_def)

lemma findall_DEFINITION:
  "findall (py ''DEFINITION'') (entry c d t) = [SubElement_text ''DEFINITION'' (definition_html d)]"
  by (simp add: findall_def entry_def SubElement_text_def)

lemma iter_ALIAS_alias: "iter (py ''ALIAS'') (alias_element n) = [alias_element n]"
  by (simp add: alias_element_def iter_SubElement_text)

lemma iter_ALIAS_entry: "iter (py ''ALIAS'') (entry c d t) = map alias_element (tag_list t)"
  by (simp add: entry_def iter_SubElement_text iter_ALIAS_alias map_concat comp_def)

lemma findtext_NAME: "findtext (py ''NAME'') (alias_element n) = Some n"
  by (simp add: findtext_def findall_def alias_element_def SubElement_text_def)

text \<open>The loop succeeds exactly on rows of three fields, and appends their entries in order.\<close>

lemma entries_loop_rows:
  "\<forall>r \<in> set rows. length r = 3 \<Longrightarrow> entries_loop es (map Inr rows) = Inr (es @ map row_entry rows)"
proof (induction rows arbitrary: es)
  case Nil
  then show ?case by simp
next
  case (Cons r rows)
  then obtain c d t where r: "r = [c, d, t]"
    by (auto simp: length_Suc_conv numeral_3_eq_3)
  with Cons show ?case by (simp add: row_entry_def)
qed

lemma entries_loop_Inr:
  "entries_loop es evs = Inr es' \<Longrightarrow>
     \<exists>rows. evs = map Inr rows \<and> (\<forall>r \<in> set rows. length r = 3) \<and> es' = es @ map row_entry rows"
proof (induction es evs rule: entries_loop.induct)
  case (3 es c d t rest)
  then obtain rows where "rest = map Inr rows" "\<forall>r \<in> set rows. length r = 3"
    "es' = (es @ [entry c d t]) @ map row_entry rows" by auto
  then show ?case
    by (intro exI[of _ "[c, d, t] # rows"]) (simp add: row_entry_def)
qed simp_all

lemma create_xml_structure_rows:
  "\<forall>r \<in> set rows. length r = 3 \<Longrightarrow>
     create_xml_structure (Inr header # map Inr rows) = Inr (glossary (map row_entry rows))"
  by (simp add: create_xml_structure_def entries_loop_rows)

lemma create_xml_structure_Inr:
  assumes "create_xml_structure (Inr header # rest) = Inr g"
  shows "\<exists>rows. rest = map Inr rows \<and> (\<forall>r \<in> set rows. length r = 3) \<and> g = glossary (map row_entry rows)"
proof -
  from assms obtain es where "entries_loop [] rest = Inr es" "g = glossary es"
    by (auto simp: create_xml_structure_def split: sum.splits)
  with entries_loop_Inr [of "[]" rest es] show ?thesis by auto
qed

lemma built_glossary:
  assumes "create_xml_structure (Inr header # map Inr rows) = Inr g"
  shows "g = glossary (map row_entry rows)"
proof -
  from create_xml_structure_Inr [OF assms] obtain rows' where
    "map Inr rows = (map Inr rows' :: csv_data)" "g = glossary (map row_entry rows')" by blast
  then show ?thesis by (simp add: inj_map_eq_map)
qed

lemma ith_entry:
  assumes "create_xml_structure (Inr header # map Inr rows) = Inr g" "i < length rows"
    "rows ! i = [c, d, t]"
  shows "iter (py ''ENTRY'') g ! i = entry c d t"
  using assms(2,3) by (simp add: built_glossary [OF assms(1)] iter_ENTRY_glossary row_entry_def)

section \<open>Entries, aliases and definitions\<close>

text \<open>
  C1. When the rows after the header are N rows of three fields, the tree is built and
  has exactly N ENTRY elements, the i-th one made from the i-th row (its CONCEPT is
  the term of that row); rows that repeat a term each keep their own entry.
\<close>

theorem C1_entries_in_row_order:
  assumes "\<forall>r \<in> set rows. length r = 3"
  shows "\<exists>g. create_xml_structure (Inr header # map Inr rows) = Inr g \<and>
           length (iter (py ''ENTRY'') g) = length rows \<and>
           map (findtext (py ''CONCEPT'')) (iter (py ''ENTRY'') g) = map (\<lambda>r. Some (r ! 0)) rows \<and>
           iter (py ''ENTRY'') g = map (\<lambda>r. entry (r ! 0) (r ! 1) (r ! 2)) rows"
proof -
  let ?g = "glossary (map row_entry rows)"
  have built: "create_xml_structure (Inr header # map Inr rows) = Inr ?g"
    using assms by (rule create_xml_structure_rows)
  have entries: "iter (py ''ENTRY'') ?g = map row_entry rows"
    by (rule iter_ENTRY_glossary)
  have "length (iter (py ''ENTRY'') ?g) = length rows"
    by (simp only: entries length_map)
  moreover have "map (findtext (py ''CONCEPT'')) (iter (py ''ENTRY'') ?g) = map (\<lambda>r. Some (r ! 0)) rows"
    by (simp only: entries) (simp add: row_entry_def findtext_CONCEPT)
  moreover have "iter (py ''ENTRY'') ?g = map (\<lambda>r. entry (r ! 0) (r ! 1) (r ! 2)) rows"
    by (simp only: entries) (simp add: row_entry_def)
  ultimately show ?thesis
    using built by blast
qed

theorem C1_entries_in_row_order_witness:
  "\<exists>g. create_xml_structure
          [Inr [py ''term'', py ''definition'', py ''tags''],
           Inr [py ''Cat'', py ''A small animal'', py ''animal, pet''],
           Inr [py ''Cat'', py ''A pet'', []]] = Inr g \<and>
       length (iter (py ''ENTRY'') g) = 2 \<and>
       map (findtext (py ''CONCEPT'')) (iter (py ''ENTRY'') g) = [Some (py ''Cat''), Some (py ''Cat'')]"
proof -
  let ?rows = "[[py ''Cat'', py ''A small animal'', py ''animal, pet''], [py ''Cat'', py ''A pet'', []]]"
  have h: "\<forall>r \<in> set ?rows. length r = 3" by simp
  from C1_entries_in_row_order [OF h, of "[py ''term'', py ''definition'', py ''tags'']"]
  obtain g where "create_xml_structure (Inr [py ''term'', py ''definition'', py ''tags''] # map Inr ?rows) = Inr g"
    "length (iter (py ''ENTRY'') g) = length ?rows"
    "map (findtext (py ''CONCEPT'')) (iter (py ''ENTRY'') g) = map (\<lambda>r. Some (r ! 0)) ?rows"
    by blast
  then show ?thesis by (intro exI [of _ g]) simp
qed

text \<open>
  C2. In the entry of a data row, the ALIAS elements are as many as the tokens of the
  row's tag field (split on commas, trimmed, empty ones discarded), their NAME texts
  are these tokens in order, and a tag field of commas and white space only has no
  ALIAS element.
\<close>

theorem C2_aliases_are_tokens:
  assumes "create_xml_structure (Inr header # map Inr rows) = Inr g"
    and "i < length rows"
    and "rows ! i = [concept, definition, tags]"
  shows "length (iter (py ''ALIAS'') (iter (py ''ENTRY'') g ! i)) = length (tokens tags) \<and>
         map (findtext (py ''NAME'')) (iter (py ''ALIAS'') (iter (py ''ENTRY'') g ! i))
           = map Some (tokens tags) \<and>
         ((\<forall>c \<in> set tags. c = comma \<or> isspace c) \<longrightarrow>
            iter (py ''ALIAS'') (iter (py ''ENTRY'') g ! i) = [])"
proof -
  have e: "iter (py ''ENTRY'') g ! i = entry concept definition tags"
    using assms by (rule ith_entry)
  have a: "iter (py ''ALIAS'') (iter (py ''ENTRY'') g ! i) = map alias_element (tokens tags)"
    by (simp only: e iter_ALIAS_entry tag_list_tokens)
  have "map (findtext (py ''NAME'')) (map alias_element (tokens tags)) = map Some (tokens tags)"
    by (simp add: findtext_NAME)
  then show ?thesis
    by (simp only: a) (simp add: tokens_blank)
qed

theorem C2_aliases_are_tokens_witness:
  "\<exists>g. create_xml_structure
          [Inr [py ''term'', py ''definition'', py ''tags''],
           Inr [py ''Cat'', py ''A small animal'', py ''animal, pet''],
           Inr [py ''Dog'', py ''A loyal animal'', py '' , ,, '']] = Inr g \<and>
       map (findtext (py ''NAME'')) (iter (py ''ALIAS'') (iter (py ''ENTRY'') g ! 0))
         = [Some (py ''animal''), Some (py ''pet'')] \<and>
       iter (py ''ALIAS'') (iter (py ''ENTRY'') g ! 1) = []"
proof -
  let ?rows = "[[py ''Cat'', py ''A small animal'', py ''animal, pet''],
                [py ''Dog'', py ''A loyal animal'', py '' , ,, '']]"
  let ?header = "[py ''term'', py ''definition'', py ''tags'']"
  have "\<forall>r \<in> set ?rows. length r = 3" by simp
  then have g: "create_xml_structure (Inr ?header # map Inr ?rows) = Inr (glossary (map row_entry ?rows))"
    by (rule create_xml_structure_rows)
  have t: "tokens (py ''animal, pet'') = [py ''animal'', py ''pet'']"
    by (simp add: tokens_def py_def comma_def strip_def isspace_def)
  have b: "\<forall>c \<in> set (py '' , ,, ''). c = comma \<or> isspace c"
    by (simp add: py_def comma_def isspace_def)
  have "map (findtext (py ''NAME'')) (iter (py ''ALIAS'') (iter (py ''ENTRY'') (glossary (map row_entry ?rows)) ! 0))
         = [Some (py ''animal''), Some (py ''pet'')]"
    using C2_aliases_are_tokens [OF g, of 0 "py ''Cat''" "py ''A small animal''" "py ''animal, pet''"] t by simp
  moreover have "iter (py ''ALIAS'') (iter (py ''ENTRY'') (glossary (map row_entry ?rows)) ! 1) = []"
    using C2_aliases_are_tokens [OF g, of 1 "py ''Dog''" "py ''A loyal animal''" "py '' , ,, ''"] b by simp
  ultimately show ?thesis using g by simp
qed

text \<open>
  C3. The entry of a data row has exactly one DEFINITION element, without children;
  its text is the fixed paragraph prefix, the definition of the row unchanged, and the
  fixed suffix.
\<close>

theorem C3_definition_wrapped:
  assumes "create_xml_structure (Inr header # map Inr rows) = Inr g"
    and "i < length rows"
    and "rows ! i = [concept, definition, tags]"
  shows \<open>findall (py ''DEFINITION'') (iter (py ''ENTRY'') g ! i) =
           [Element (py ''DEFINITION'')
              (Some (py ''<p dir="ltr" style="text-align: left;">'' @ definition @ py ''<br/></p>'')) []]\<close>
proof -
  have "iter (py ''ENTRY'') g ! i = entry concept definition tags"
    using assms by (rule ith_entry)
  then show ?thesis
    by (simp add: findall_DEFINITION SubElement_text_def definition_html_def)
qed

theorem C3_definition_wrapped_witness:
  \<open>\<exists>g. create_xml_structure
          [Inr [py ''term'', py ''definition'', py ''tags''],
           Inr [py ''Cat'', py ''A <b>small</b> animal'', py ''animal, pet'']] = Inr g \<and>
       findall (py ''DEFINITION'') (iter (py ''ENTRY'') g ! 0) =
         [Element (py ''DEFINITION'')
            (Some (py ''<p dir="ltr" style="text-align: left;">A <b>small</b> animal<br/></p>'')) []]\<close>
proof -
  let ?rows = "[[py ''Cat'', py ''A <b>small</b> animal'', py ''animal, pet'']]"
  let ?header = "[py ''term'', py ''definition'', py ''tags'']"
  have "\<forall>r \<in> set ?rows. length r = 3" by simp
  then have g: "create_xml_structure (Inr ?header # map Inr ?rows) = Inr (glossary (map row_entry ?rows))"
    by (rule create_xml_structure_rows)
  show ?thesis
    using g C3_definition_wrapped [OF g, of 0 "py ''Cat''" "py ''A <b>small</b> animal''" "py ''animal, pet''"]
    by (simp add: py_def)
qed

text \<open>
  C6. The first row is discarded whatever it holds: the result does not depend on
  it, and a tree that is built has one ENTRY element for each row after the first,
  none for the first.
\<close>

theorem C6_header_never_an_entry:
  "create_xml_structure (Inr header # rest) = create_xml_structure (Inr header' # rest) \<and>
   (\<forall>g. create_xml_structure (Inr header # rest) = Inr g \<longrightarrow>
        length (iter (py ''ENTRY'') g) = length rest)"
proof -
  have "length (iter (py ''ENTRY'') g) = length rest"
    if "create_xml_structure (Inr header # rest) = Inr g" for g
  proof -
    from create_xml_structure_Inr [OF that] obtain rows where
      "rest = map Inr rows" "g = glossary (map row_entry rows)" by blast
    then show ?thesis by (simp add: iter_ENTRY_glossary)
  qed
  then show ?thesis
    by (simp add: create_xml_structure_def)
qed

theorem C6_header_never_an_entry_witness:
  "\<exists>g. create_xml_structure
          [Inr [py ''Cat'', py ''A small animal'', py ''animal, pet''],
           Inr [py ''Dog'', py ''A loyal animal'', py ''animal'']] = Inr g \<and>
       length (iter (py ''ENTRY'') g) = 1 \<and>
       map (findtext (py ''CONCEPT'')) (iter (py ''ENTRY'') g) = [Some (py ''Dog'')]"
proof -
  let ?rows = "[[py ''Dog'', py ''A loyal animal'', py ''animal'']]"
  let ?header = "[py ''Cat'', py ''A small animal'', py ''animal, pet'']"
  let ?g = "glossary (map row_entry ?rows)"
  have "\<forall>r \<in> set ?rows. length r = 3" by simp
  then have g: "create_xml_structure (Inr ?header # map Inr ?rows) = Inr ?g"
    by (rule create_xml_structure_rows)
  have "length (iter (py ''ENTRY'') ?g) = length (map Inr ?rows :: csv_data)"
    using C6_header_never_an_entry [of ?header "map Inr ?rows"] g by blast
  then have l: "length (iter (py ''ENTRY'') ?g) = 1" by simp
  have "iter (py ''ENTRY'') ?g = map row_entry ?rows"
    by (rule iter_ENTRY_glossary)
  then have c: "map (findtext (py ''CONCEPT'')) (iter (py ''ENTRY'') ?g) = [Some (py ''Dog'')]"
    by (simp add: row_entry_def findtext_CONCEPT)
  from g l c show ?thesis
    by (intro exI [of _ ?g]) simp
qed

section \<open>Runs of \<^verbatim>\<open>main\<close>\<close>


lemma main_input_refused:
  "open_r fs (input_csv a) = Inl e \<Longrightarrow> e \<noteq> FileNotFoundError \<Longrightarrow>
     main l a fs = \<lparr>files = fs, stdout = [], status = Uncaught e\<rparr>"
  by (simp add: main_def except_def)

lemma main_reading_raises:
  "open_r fs (input_csv a) = Inr content \<Longrightarrow> create_xml_structure (csv_reader l content) = Inl e \<Longrightarrow>
     main l a fs = except a fs e"
  by (simp add: main_def)

lemma plain_empty: "plain_csv_reader [] = []"
  by (simp add: plain_csv_reader_def lines_def)

lemma main_not_written:
  assumes "open_r fs (input_csv a) = Inr content"
    and "create_xml_structure (csv_reader l content) = Inr g"
    and "well_formed g"
    and "open_w_write fs (output_xml_path a) (encode l (toprettyxml (to_dom g))) = Inl e"
  shows "main l a fs = except a fs e"
  using assms by (simp add: main_def reparsed_def)

lemma main_written:
  assumes "open_r fs (input_csv a) = Inr content"
    and "create_xml_structure (csv_reader l content) = Inr g"
    and "well_formed g"
    and "open_w_write fs (output_xml_path a) (encode l (toprettyxml (to_dom g))) = Inr fs'"
  shows "main l a fs =
           \<lparr>files = fs',
            stdout = [py ''Successfully converted '' @ quoted (input_csv a)
                      @ py '' to '' @ quoted (output_xml_path a)],
            status = Returned\<rparr>"
  using assms by (simp add: main_def reparsed_def)

lemma main_not_well_formed:
  assumes "open_r fs (input_csv a) = Inr content"
    and "create_xml_structure (csv_reader l content) = Inr g"
    and "\<not> well_formed g"
  shows "main l a fs = \<lparr>files = fs, stdout = [], status = Uncaught ExpatError\<rparr>"
  using assms by (simp add: main_def reparsed_def except_def)


lemma plain_two_rows:
  "plain_csv_reader (py ''term;definition;tags'' @ [0xA] @ py ''Cat;A small animal;animal, pet'' @ [0xA])
     = [Inr [py ''term'', py ''definition'', py ''tags''],
        Inr [py ''Cat'', py ''A small animal'', py ''animal, pet'']]"
  by (simp add: plain_csv_reader_def lines_def py_def semicolon_def)

lemma xml_char_py: "list_all xml_char (py s) \<longleftrightarrow> list_all (\<lambda>c. xml_char (of_char c)) s"
  by (simp add: py_def list_all_iff)

lemma well_formed_example:
  "well_formed (glossary (map row_entry [[py ''Cat'', py ''A small animal'', py ''animal, pet'']]))"
  by (simp add: glossary_def row_entry_def entry_def SubElement_text_def definition_html_def
      alias_element_def tag_list_def py_def xml_char_def comma_def strip_def isspace_def)

lemma example_converts:
  "create_xml_structure (csv_reader plain_lib
      (py ''term;definition;tags'' @ [0xA] @ py ''Cat;A small animal;animal, pet'' @ [0xA]))
   = Inr (glossary (map row_entry [[py ''Cat'', py ''A small animal'', py ''animal, pet'']]))"
proof -
  have "csv_reader plain_lib (py ''term;definition;tags'' @ [0xA] @ py ''Cat;A small animal;animal, pet'' @ [0xA])
          = Inr [py ''term'', py ''definition'', py ''tags''] #
            map Inr [[py ''Cat'', py ''A small animal'', py ''animal, pet'']]"
    by (simp only: plain_lib_def lib.select_convs plain_two_rows list.map)
  moreover have "create_xml_structure (Inr [py ''term'', py ''definition'', py ''tags''] #
          map Inr [[py ''Cat'', py ''A small animal'', py ''animal, pet'']])
       = Inr (glossary (map row_entry [[py ''Cat'', py ''A small animal'', py ''animal, pet'']]))"
    by (rule create_xml_structure_rows) simp
  ultimately show ?thesis
    by (simp only:)
qed




text \<open>
  C8. When the input file exists and the reader yields no row at all, skipping the
  header raises \<^verbatim>\<open>StopIteration\<close>, which leaves \<^verbatim>\<open>main\<close> uncaught: nothing is
  printed, the file system is unchanged and the exit status is 1. A tree is only ever
  built from an input with at least one row.
\<close>

theorem C8_empty_input_stops:
  assumes "open_r fs (input_csv a) = Inr content" and "csv_reader l content = []"
  shows "main l a fs = \<lparr>files = fs, stdout = [], status = Uncaught StopIteration\<rparr> \<and>
         exit_status (status (main l a fs)) = 1 \<and>
         (\<forall>csv_data g. create_xml_structure csv_data = Inr g \<longrightarrow> csv_data \<noteq> [])"
proof -
  have "create_xml_structure (csv_reader l content) = Inl StopIteration"
    using assms(2) by (simp add: create_xml_structure_def)
  then have "main l a fs = \<lparr>files = fs, stdout = [], status = Uncaught StopIteration\<rparr>"
    using assms(1) by (simp add: main_def except_def)
  moreover have "csv_data \<noteq> []" if "create_xml_structure csv_data = Inr g" for csv_data g
    using that by (auto simp: create_xml_structure_def)
  ultimately show ?thesis
    by (simp add: exit_status_def)
qed

theorem C8_empty_input_stops_witness:
  "main plain_lib \<lparr>input_csv = py ''terms.csv'', output_xml = None\<rparr>
     ((\<lambda>p. Absent)(py ''terms.csv'' := File [])) =
     \<lparr>files = (\<lambda>p. Absent)(py ''terms.csv'' := File []),
      stdout = [], status = Uncaught StopIteration\<rparr>"
proof -
  have rows: "csv_reader plain_lib [] = []"
    by (simp add: plain_lib_def plain_csv_reader_def lines_def)
  have input: "open_r ((\<lambda>p. Absent)(py ''terms.csv'' := File []))
                 (input_csv \<lparr>input_csv = py ''terms.csv'', output_xml = None\<rparr>) = Inr []"
    by (simp add: open_r_def)
  from C8_empty_input_stops [OF input rows] show ?thesis
    by (rule conjunct1)
qed




text \<open>
  C5. A failure while writing that the program does handle: the input exists and
  converts, the directory \<^verbatim>\<open>out\<close> of the output path does not exist. Opening the
  output raises \<^verbatim>\<open>FileNotFoundError\<close>, the handler meant for the input catches it,
  the run reports the input as missing and returns.
\<close>

theorem C5_missing_output_directory:
  "main plain_lib \<lparr>input_csv = py ''terms.csv'', output_xml = Some (py ''out/terms.xml'')\<rparr>
     ((\<lambda>p. Absent)
        (py ''terms.csv'' :=
           File (py ''term;definition;tags'' @ [0xA] @ py ''Cat;A small animal;animal, pet'' @ [0xA]),
         py ''out/terms.xml'' := Refused FileNotFoundError FileNotFoundError))
   = \<lparr>files = (\<lambda>p. Absent)
        (py ''terms.csv'' :=
           File (py ''term;definition;tags'' @ [0xA] @ py ''Cat;A small animal;animal, pet'' @ [0xA]),
         py ''out/terms.xml'' := Refused FileNotFoundError FileNotFoundError),
      stdout = [py ''Error: Input file not found at '' @ quoted (py ''terms.csv'')],
      status = Returned\<rparr>"
proof -
  let ?text = "py ''term;definition;tags'' @ [0xA] @ py ''Cat;A small animal;animal, pet'' @ [0xA]"
  let ?fs = "(\<lambda>p. Absent)
        (py ''terms.csv'' := File ?text,
         py ''out/terms.xml'' := Refused FileNotFoundError FileNotFoundError)"
  let ?a = "\<lparr>input_csv = py ''terms.csv'', output_xml = Some (py ''out/terms.xml'')\<rparr>"
  let ?g = "glossary (map row_entry [[py ''Cat'', py ''A small animal'', py ''animal, pet'']])"
  have r: "open_r ?fs (input_csv ?a) = Inr ?text"
    by (simp add: open_r_def)
  have w: "open_w_write ?fs (output_xml_path ?a) (encode plain_lib (toprettyxml (to_dom ?g)))
             = Inl FileNotFoundError"
    by (simp add: open_w_write_def output_xml_path_def) (simp add: py_def)
  show ?thesis
    by (simp only: main_not_written [OF r example_converts well_formed_example w]) (simp add: except_def)
qed

section \<open>The output path\<close>

lemma rfind_notin: "c \<notin> set p \<Longrightarrow> rfind p c = - 1"
  by (simp add: rfind_def)

lemma rfind_last: "c \<notin> set v \<Longrightarrow> rfind (u @ c # v) c = int (length u)"
proof -
  assume "c \<notin> set v"
  then have "\<And>x. x \<in> set (rev v) \<Longrightarrow> x \<noteq> c" by auto
  then have "takeWhile (\<lambda>x. x \<noteq> c) (rev v @ c # rev u) = rev v @ takeWhile (\<lambda>x. x \<noteq> c) (c # rev u)"
    by (rule takeWhile_append2)
  then have "takeWhile (\<lambda>x. x \<noteq> c) (rev v @ c # rev u) = rev v"
    by simp
  then show ?thesis by (simp add: rfind_def)
qed

lemma rfind_in:
  assumes "c \<in> set p"
  obtains u v where "p = u @ c # v" "c \<notin> set v" "rfind p c = int (length u)"
proof -
  from assms obtain u v where "p = u @ c # v" "c \<notin> set v"
    by (auto dest: split_list_last)
  then show ?thesis using rfind_last [of c v u] that by blast
qed

lemma rfind_ge: "- 1 \<le> rfind p c"
  by (cases "c \<in> set p") (auto simp: rfind_notin elim: rfind_in)

lemma rfind_append: "c \<notin> set v \<Longrightarrow> rfind (u @ v) c = rfind u c"
proof (cases "c \<in> set u")
  case True
  assume v: "c \<notin> set v"
  from True obtain a b where u: "u = a @ c # b" "c \<notin> set b" "rfind u c = int (length a)"
    by (rule rfind_in)
  then have "rfind (a @ c # (b @ v)) c = int (length a)" using v by (intro rfind_last) simp
  with u show ?thesis by simp
next
  case False
  assume "c \<notin> set v"
  with False show ?thesis by (simp add: rfind_notin)
qed

lemma splitext_loop_eq:
  "0 \<le> i \<Longrightarrow> k < int (length p) \<Longrightarrow>
     splitext_loop p i k =
       (if \<exists>j. i \<le> j \<and> j < k \<and> p ! nat j \<noteq> dot then (take (nat k) p, drop (nat k) p) else (p, []))"
proof (induction p i k rule: splitext_loop.induct)
  case (1 p i k)
  show ?case
  proof (cases "i < k")
    case False
    then show ?thesis by (subst splitext_loop.simps) auto
  next
    case True
    with 1(2,3) have len: "nat i < length p" by linarith
    then have slice: "take 1 (drop (nat i) p) = [p ! nat i]"
      by (simp add: take_Suc_conv_app_nth)
    show ?thesis
    proof (cases "p ! nat i = dot")
      case False
      with True slice have "splitext_loop p i k = (take (nat k) p, drop (nat k) p)"
        by (subst splitext_loop.simps) simp
      moreover have "\<exists>j. i \<le> j \<and> j < k \<and> p ! nat j \<noteq> dot"
        using True False by (intro exI [of _ i]) simp
      ultimately show ?thesis by simp
    next
      case dot: True
      with True slice have "splitext_loop p i k = splitext_loop p (i + 1) k"
        by (subst splitext_loop.simps) simp
      also have "\<dots> = (if \<exists>j. i + 1 \<le> j \<and> j < k \<and> p ! nat j \<noteq> dot
                        then (take (nat k) p, drop (nat k) p) else (p, []))"
        using 1(1) [OF True] slice dot 1(2,3) by simp
      also have "(\<exists>j. i + 1 \<le> j \<and> j < k \<and> p ! nat j \<noteq> dot) \<longleftrightarrow> (\<exists>j. i \<le> j \<and> j < k \<and> p ! nat j \<noteq> dot)"
      proof
        assume "\<exists>j. i + 1 \<le> j \<and> j < k \<and> p ! nat j \<noteq> dot"
        then obtain j where "i + 1 \<le> j" "j < k" "p ! nat j \<noteq> dot" by blast
        then show "\<exists>j. i \<le> j \<and> j < k \<and> p ! nat j \<noteq> dot" by (intro exI [of _ j]) simp
      next
        assume "\<exists>j. i \<le> j \<and> j < k \<and> p ! nat j \<noteq> dot"
        then obtain j where j: "i \<le> j" "j < k" "p ! nat j \<noteq> dot" by blast
        with dot have "j \<noteq> i" by auto
        with j show "\<exists>j. i + 1 \<le> j \<and> j < k \<and> p ! nat j \<noteq> dot" by (intro exI [of _ j]) simp
      qed
      finally show ?thesis .
    qed
  qed
qed

lemma rfind_less: "rfind p c < int (length p)"
  by (cases "c \<in> set p") (auto simp: rfind_notin elim: rfind_in)

lemma dot_not_slash: "dot \<noteq> slash"
  by (simp add: dot_def slash_def)

lemma in_set_drop_iff: "x \<in> set (drop n xs) \<longleftrightarrow> (\<exists>i. n \<le> i \<and> i < length xs \<and> xs ! i = x)"
proof
  assume "x \<in> set (drop n xs)"
  then obtain k where k: "k < length (drop n xs)" "drop n xs ! k = x"
    by (auto simp: in_set_conv_nth)
  then show "\<exists>i. n \<le> i \<and> i < length xs \<and> xs ! i = x"
    by (intro exI [of _ "n + k"]) auto
next
  assume "\<exists>i. n \<le> i \<and> i < length xs \<and> xs ! i = x"
  then obtain i where i: "n \<le> i" "i < length xs" "xs ! i = x" by blast
  then have "i - n < length (drop n xs)" "drop n xs ! (i - n) = x" by auto
  then show "x \<in> set (drop n xs)" by (metis nth_mem)
qed

lemma basename_has_other_iff:
  "list_ex (\<lambda>c. c \<noteq> dot) (basename u) \<longleftrightarrow>
     (\<exists>j. rfind u slash + 1 \<le> j \<and> j < int (length u) \<and> u ! nat j \<noteq> dot)"
proof
  assume "list_ex (\<lambda>c. c \<noteq> dot) (basename u)"
  then obtain c where "c \<in> set (drop (nat (rfind u slash + 1)) u)" "c \<noteq> dot"
    by (auto simp: list_ex_iff basename_def)
  then obtain m where m: "nat (rfind u slash + 1) \<le> m" "m < length u" "u ! m \<noteq> dot"
    by (auto simp: in_set_drop_iff)
  then show "\<exists>j. rfind u slash + 1 \<le> j \<and> j < int (length u) \<and> u ! nat j \<noteq> dot"
    by (intro exI [of _ "int m"]) auto
next
  assume "\<exists>j. rfind u slash + 1 \<le> j \<and> j < int (length u) \<and> u ! nat j \<noteq> dot"
  then obtain j where j: "rfind u slash + 1 \<le> j" "j < int (length u)" "u ! nat j \<noteq> dot" by blast
  then have "nat (rfind u slash + 1) \<le> nat j" "nat j < length u"
    using rfind_ge [of u slash] by auto
  with j(3) have "u ! nat j \<in> set (drop (nat (rfind u slash + 1)) u)"
    by (auto simp: in_set_drop_iff)
  with j(3) show "list_ex (\<lambda>c. c \<noteq> dot) (basename u)"
    by (auto simp: list_ex_iff basename_def)
qed

lemma splitext_at_last_dot:
  assumes p: "p = u @ dot # v" and v: "dot \<notin> set v" "slash \<notin> set v"
  shows "splitext p = (if list_ex (\<lambda>c. c \<noteq> dot) (basename u) then (u, dot # v) else (p, []))"
proof -
  have di: "rfind p dot = int (length u)"
    using v(1) by (simp add: p rfind_last)
  have "slash \<notin> set (dot # v)" using v(2) dot_not_slash by auto
  then have si: "rfind p slash = rfind u slash"
    unfolding p by (rule rfind_append)
  have lt: "rfind u slash < int (length u)" by (rule rfind_less)
  have ge: "0 \<le> rfind u slash + 1" using rfind_ge [of u slash] by simp
  have eqj: "p ! nat j = u ! nat j" if "rfind u slash + 1 \<le> j" "j < int (length u)" for j
  proof -
    from that ge have "nat j < length u" by linarith
    then show ?thesis by (simp add: p nth_append)
  qed
  have "(\<exists>j. rfind u slash + 1 \<le> j \<and> j < int (length u) \<and> p ! nat j \<noteq> dot) \<longleftrightarrow>
        (\<exists>j. rfind u slash + 1 \<le> j \<and> j < int (length u) \<and> u ! nat j \<noteq> dot)"
  proof
    assume "\<exists>j. rfind u slash + 1 \<le> j \<and> j < int (length u) \<and> p ! nat j \<noteq> dot"
    then obtain j where j: "rfind u slash + 1 \<le> j" "j < int (length u)" "p ! nat j \<noteq> dot"
      by blast
    from j(3) eqj [OF j(1,2)] have "u ! nat j \<noteq> dot" by simp
    with j(1,2) show "\<exists>j. rfind u slash + 1 \<le> j \<and> j < int (length u) \<and> u ! nat j \<noteq> dot"
      by (intro exI [of _ j]) simp
  next
    assume "\<exists>j. rfind u slash + 1 \<le> j \<and> j < int (length u) \<and> u ! nat j \<noteq> dot"
    then obtain j where j: "rfind u slash + 1 \<le> j" "j < int (length u)" "u ! nat j \<noteq> dot"
      by blast
    from j(3) eqj [OF j(1,2)] have "p ! nat j \<noteq> dot" by simp
    with j(1,2) show "\<exists>j. rfind u slash + 1 \<le> j \<and> j < int (length u) \<and> p ! nat j \<noteq> dot"
      by (intro exI [of _ j]) simp
  qed
  then have ex: "(\<exists>j. rfind u slash + 1 \<le> j \<and> j < int (length u) \<and> p ! nat j \<noteq> dot) \<longleftrightarrow>
        list_ex (\<lambda>c. c \<noteq> dot) (basename u)"
    by (simp only: basename_has_other_iff)
  have "splitext p = splitext_loop p (rfind u slash + 1) (int (length u))"
    using lt by (simp add: splitext_def di si)
  also have "\<dots> = (if \<exists>j. rfind u slash + 1 \<le> j \<and> j < int (length u) \<and> p ! nat j \<noteq> dot
                    then (take (nat (int (length u))) p, drop (nat (int (length u))) p) else (p, []))"
    using ge by (intro splitext_loop_eq) (simp_all add: p)
  finally show ?thesis
    by (simp only: ex) (simp add: p)
qed

lemma splitext_extension:
  assumes "extension_of p u v"
  shows "splitext p = (u, dot # v)"
  using assms splitext_at_last_dot [of p u v] by (simp add: extension_of_def)

lemma splitext_no_extension:
  assumes "\<not> (\<exists>u v. extension_of p u v)"
  shows "splitext p = (p, [])"
proof (cases "dot \<in> set p")
  case False
  then show ?thesis
    using rfind_ge [of p slash] by (simp add: splitext_def rfind_notin)
next
  case True
  then obtain u v where p: "p = u @ dot # v" "dot \<notin> set v" "rfind p dot = int (length u)"
    by (rule rfind_in)
  show ?thesis
  proof (cases "slash \<in> set v")
    case False
    with assms p have "\<not> list_ex (\<lambda>c. c \<noteq> dot) (basename u)"
      by (auto simp: extension_of_def)
    with splitext_at_last_dot [OF p(1,2) False] show ?thesis by simp
  next
    case True
    then have "slash \<in> set p" by (simp add: p(1))
    then obtain a b where a: "p = a @ slash # b" "slash \<notin> set b" "rfind p slash = int (length a)"
      by (rule rfind_in)
    have "length u \<le> length a"
    proof (rule ccontr)
      assume "\<not> length u \<le> length a"
      then have l: "length a \<le> length u" by simp
      have "v = drop (Suc (length u)) p" by (simp add: p(1))
      also have "\<dots> = drop (length u - length a) (drop (Suc (length a)) p)"
        using l by simp
      also have "drop (Suc (length a)) p = b" by (simp add: a(1))
      finally have "set v \<subseteq> set b" by (simp add: set_drop_subset)
      with True a(2) show False by blast
    qed
    then show ?thesis by (simp add: splitext_def p(3) a(3))
  qed
qed

lemma extension_example: "extension_of (py ''data/terms.csv'') (py ''data/terms'') (py ''csv'')"
  by (simp add: extension_of_def basename_def rfind_def py_def dot_def slash_def)

text \<open>
  C7, as amended. A given output path that is not empty is used as it is. When no
  output path is given, or the given one is the empty string, the output path is the
  input path with its extension replaced by \<^verbatim>\<open>.xml\<close>, or with \<^verbatim>\<open>.xml\<close> appended when
  the input path has no extension.
\<close>

theorem C7_output_path:
  "(\<forall>path. output_xml a = Some path \<and> path \<noteq> [] \<longrightarrow> output_xml_path a = path) \<and>
   (\<forall>u v. (output_xml a = None \<or> output_xml a = Some []) \<and> extension_of (input_csv a) u v \<longrightarrow>
      output_xml_path a = u @ py ''.xml'') \<and>
   ((output_xml a = None \<or> output_xml a = Some []) \<and> \<not> (\<exists>u v. extension_of (input_csv a) u v) \<longrightarrow>
      output_xml_path a = input_csv a @ py ''.xml'')"
proof (intro conjI allI impI)
  fix path
  assume "output_xml a = Some path \<and> path \<noteq> []"
  then show "output_xml_path a = path" by (simp add: output_xml_path_def)
next
  fix u v
  assume h: "(output_xml a = None \<or> output_xml a = Some []) \<and> extension_of (input_csv a) u v"
  then have "extension_of (input_csv a) u v" by simp
  then have "fst (splitext (input_csv a)) = u" by (simp add: splitext_extension)
  with h show "output_xml_path a = u @ py ''.xml''" by (auto simp: output_xml_path_def)
next
  assume h: "(output_xml a = None \<or> output_xml a = Some []) \<and> \<not> (\<exists>u v. extension_of (input_csv a) u v)"
  then have "\<not> (\<exists>u v. extension_of (input_csv a) u v)" by simp
  then have "splitext (input_csv a) = (input_csv a, [])" by (rule splitext_no_extension)
  then have "fst (splitext (input_csv a)) = input_csv a" by simp
  with h show "output_xml_path a = input_csv a @ py ''.xml''" by (auto simp: output_xml_path_def)
qed

theorem C7_output_path_witness:
  "output_xml_path \<lparr>input_csv = py ''data/terms.csv'', output_xml = None\<rparr> = py ''data/terms.xml'' \<and>
   output_xml_path \<lparr>input_csv = py ''data/terms.csv'', output_xml = Some (py ''out.xml'')\<rparr> = py ''out.xml''"
proof -
  let ?a = "\<lparr>input_csv = py ''data/terms.csv'', output_xml = None\<rparr>"
  let ?b = "\<lparr>input_csv = py ''data/terms.csv'', output_xml = Some (py ''out.xml'')\<rparr>"
  note default = C7_output_path [of ?a, THEN conjunct2, THEN conjunct1, rule_format,
      of "py ''data/terms''" "py ''csv''"]
  note given = C7_output_path [of ?b, THEN conjunct1, rule_format, of "py ''out.xml''"]
  have "output_xml_path ?a = py ''data/terms'' @ py ''.xml''"
    by (rule default) (simp add: extension_example)
  moreover have "output_xml_path ?b = py ''out.xml''"
    by (rule given) (simp add: py_def)
  ultimately show ?thesis by (simp add: py_def)
qed

text \<open>
  C7 as stated fails for an output path that is given and empty: the default path is
  used, not the given one.
\<close>

theorem C7_empty_output_argument:
  "output_xml \<lparr>input_csv = py ''data/terms.csv'', output_xml = Some []\<rparr> = Some [] \<and>
   output_xml_path \<lparr>input_csv = py ''data/terms.csv'', output_xml = Some []\<rparr> = py ''data/terms.xml'' \<and>
   output_xml_path \<lparr>input_csv = py ''data/terms.csv'', output_xml = Some []\<rparr> \<noteq> []"
proof -
  have "fst (splitext (py ''data/terms.csv'')) = py ''data/terms''"
    using splitext_extension [OF extension_example] by simp
  then show ?thesis by (simp add: output_xml_path_def py_def)
qed

section \<open>The serialised document\<close>

lemma replace_append: "replace c new (xs @ ys) = replace c new xs @ replace c new ys"
  by (simp add: replace_def)

lemma set_replace: "set (replace c new s) \<subseteq> (set s - {c}) \<union> set new"
  by (auto simp: replace_def split: if_splits)

lemma write_data_append: "write_data (xs @ ys) = write_data xs @ write_data ys"
  by (simp add: write_data_def replace_append)

lemma write_data_no_angle: "0x3C \<notin> set (write_data d) \<and> 0x3E \<notin> set (write_data d)"
proof -
  let ?a = "replace 0x26 (py ''&amp;'') d"
  let ?b = "replace 0x3C (py ''&lt;'') ?a"
  let ?c = "replace 0x22 (py ''&quot;'') ?b"
  have b: "0x3C \<notin> set ?b"
    using set_replace [of "0x3C" "py ''&lt;''" ?a] by (auto simp: py_def)
  have c: "0x3C \<notin> set ?c"
    using set_replace [of "0x22" "py ''&quot;''" ?b] b by (auto simp: py_def)
  have "set (write_data d) \<subseteq> (set ?c - {0x3E}) \<union> set (py ''&gt;'')"
    unfolding write_data_def by (rule set_replace)
  with c show ?thesis by (auto simp: py_def)
qed

lemma newlines_Cons: "c \<noteq> 0xD \<Longrightarrow> newlines (c # cs) = c # newlines cs"
  by (cases cs) simp_all

lemma newlines_no_cr: "0xD \<notin> set s \<Longrightarrow> newlines s = s"
  by (induction s) (simp_all add: newlines_Cons)

lemma newlines_append:
  "ys \<noteq> [] \<Longrightarrow> hd ys \<noteq> 0xA \<Longrightarrow> newlines (xs @ ys) = newlines xs @ newlines ys"
proof (induction xs rule: newlines.induct)
  case (1 c d cs)
  then show ?case by simp
next
  case (2 c)
  then show ?case by (cases ys) simp_all
next
  case 3
  then show ?case by simp
qed

lemma newlines_definition_html:
  \<open>newlines (definition_html d) =
     py ''<p dir="ltr" style="text-align: left;">'' @ newlines d @ py ''<br/></p>''\<close>
proof -
  have s: \<open>newlines (d @ py ''<br/></p>'') = newlines d @ newlines (py ''<br/></p>'')\<close>
    by (rule newlines_append) (simp_all add: py_def)
  have t: \<open>newlines (py ''<br/></p>'') = py ''<br/></p>''\<close>
    by (rule newlines_no_cr) (simp add: py_def)
  have \<open>newlines (py ''<p dir="ltr" style="text-align: left;">'' @ rest) =
          py ''<p dir="ltr" style="text-align: left;">'' @ newlines rest\<close> for rest
    by (simp add: py_def newlines_Cons)
  then show ?thesis
    by (simp only: definition_html_def s t)
qed

lemma write_data_definition_html:
  \<open>write_data (newlines (definition_html d)) =
     py ''&lt;p dir=&quot;ltr&quot; style=&quot;text-align: left;&quot;&gt;'' @
     write_data (newlines d) @ py ''&lt;br/&gt;&lt;/p&gt;''\<close>
proof -
  have p: \<open>write_data (py ''<p dir="ltr" style="text-align: left;">'') =
            py ''&lt;p dir=&quot;ltr&quot; style=&quot;text-align: left;&quot;&gt;''\<close>
    by (simp add: write_data_def replace_def py_def)
  have s: \<open>write_data (py ''<br/></p>'') = py ''&lt;br/&gt;&lt;/p&gt;''\<close>
    by (simp add: write_data_def replace_def py_def)
  show ?thesis
    by (simp only: newlines_definition_html write_data_append p s)
qed

lemma definition_html_not_Nil: "definition_html d \<noteq> []"
  by (simp add: definition_html_def py_def)

lemma to_dom_DEFINITION:
  "to_dom (SubElement_text ''DEFINITION'' (definition_html d)) =
     DElement (py ''DEFINITION'') [DText (newlines (definition_html d))]"
  by (simp add: SubElement_text_def definition_html_not_Nil)

lemma writexml_DEFINITION:
  "writexml (to_dom (SubElement_text ''DEFINITION'' (definition_html d))) indent =
     indent @ (py ''<DEFINITION>'' @ write_data (newlines (definition_html d)) @ py ''</DEFINITION>'') @ newl"
  by (simp add: to_dom_DEFINITION py_def)

lemma writexml_child:
  assumes "DElement t' ns' \<in> set ns"
  shows "sublist (writexml (DElement t' ns') (indent @ addindent)) (writexml (DElement t ns) indent)"
proof -
  let ?w = "\<lambda>n. writexml n (indent @ addindent)"
  from assms obtain as bs where ns: "ns = as @ DElement t' ns' # bs"
    by (auto dest: split_list)
  have nonempty: "ns \<noteq> []" using assms by auto
  have c: "(case ns of [DText d] \<Rightarrow> write_data d | _ \<Rightarrow> newl @ concat (map ?w ns) @ indent)
           = newl @ concat (map ?w ns) @ indent"
  proof (cases ns)
    case Nil
    then show ?thesis by simp
  next
    case (Cons n rest)
    show ?thesis
    proof (cases n)
      case (DElement x y)
      with Cons show ?thesis by simp
    next
      case (DText d)
      show ?thesis
      proof (cases rest)
        case Nil
        with Cons DText assms show ?thesis by simp
      next
        case (Cons m more)
        with \<open>ns = n # rest\<close> DText show ?thesis by simp
      qed
    qed
  qed
  have w: "writexml (DElement t ns) indent =
             indent @ py ''<'' @ t @ py ''>'' @ (newl @ concat (map ?w ns) @ indent)
             @ py ''</'' @ t @ py ''>'' @ newl"
    by (simp only: writexml.simps c nonempty not_False_eq_True if_True)
  have "concat (map ?w ns) = concat (map ?w as) @ ?w (DElement t' ns') @ concat (map ?w bs)"
    by (simp only: ns map_append list.map concat_append concat.simps)
  then have "writexml (DElement t ns) indent =
          (indent @ py ''<'' @ t @ py ''>'' @ newl @ concat (map ?w as))
          @ ?w (DElement t' ns')
          @ (concat (map ?w bs) @ indent @ py ''</'' @ t @ py ''>'' @ newl)"
    by (simp only: w append_assoc)
  then show ?thesis
    unfolding sublist_def by (intro exI)
qed

lemma sublist_chain: "sublist a b \<Longrightarrow> sublist b c \<Longrightarrow> sublist a c"
  by (rule sublist_order.order_trans)

lemma writexml_child_element:
  assumes "to_dom e \<in> set ns"
  shows "sublist (writexml (to_dom e) (indent @ addindent)) (writexml (DElement t ns) indent)"
proof (cases e)
  case (Element g x cs)
  with assms show ?thesis
    using writexml_child [of g _ ns indent t] by (simp del: writexml.simps)
qed

lemma to_dom_entry_has_definition:
  "to_dom (SubElement_text ''DEFINITION'' (definition_html d)) \<in> set (childNodes (to_dom (entry c d t)))"
  by (simp add: entry_def del: to_dom.simps) (simp add: SubElement_text_def)

lemma to_dom_glossary:
  "\<exists>ls. to_dom (glossary es) =
         DElement (py ''GLOSSARY'') [DElement (py ''INFO'') (ls @ [DElement (py ''ENTRIES'') (map to_dom es)])]"
  by (simp add: glossary_def SubElement_text_def)

lemma sublist_prepend: "sublist a b \<Longrightarrow> sublist a (p @ b)"
  by (rule sublist_chain [OF _ sublist_append_leftI])

lemma definition_in_glossary:
  assumes "i < length rows" and "rows ! i = [c, d, t]"
  shows "\<exists>indent. sublist (writexml (to_dom (SubElement_text ''DEFINITION'' (definition_html d))) indent)
                      (writexml (to_dom (glossary (map row_entry rows))) [])"
proof -
  let ?def = "to_dom (SubElement_text ''DEFINITION'' (definition_html d))"
  let ?e = "entry c d t"
  let ?es = "map row_entry rows"
  obtain ls where g: "to_dom (glossary ?es) =
      DElement (py ''GLOSSARY'') [DElement (py ''INFO'') (ls @ [DElement (py ''ENTRIES'') (map to_dom ?es)])]"
    using to_dom_glossary by blast
  let ?entries = "DElement (py ''ENTRIES'') (map to_dom ?es)"
  let ?info = "DElement (py ''INFO'') (ls @ [?entries])"
  let ?i1 = "[] @ addindent"
  let ?i2 = "?i1 @ addindent"
  let ?i3 = "?i2 @ addindent"
  let ?i4 = "?i3 @ addindent"
  have "map to_dom ?es ! i = to_dom ?e" using assms by (simp add: row_entry_def)
  moreover have "i < length (map to_dom ?es)" using assms(1) by simp
  ultimately have "to_dom ?e \<in> set (map to_dom ?es)" by (metis nth_mem)
  then have s3: "sublist (writexml (to_dom ?e) ?i3) (writexml ?entries ?i2)"
    by (rule writexml_child_element)
  obtain g' x' cs' where e: "?e = Element g' x' cs'" by (cases ?e)
  have "?def \<in> set (childNodes (to_dom ?e))" by (rule to_dom_entry_has_definition)
  moreover have "to_dom ?e = DElement (tagName (to_dom ?e)) (childNodes (to_dom ?e))"
    by (simp only: e to_dom.simps dom_node.sel)
  ultimately have s4: "sublist (writexml ?def ?i4) (writexml (to_dom ?e) ?i3)"
    using writexml_child_element [of "SubElement_text ''DEFINITION'' (definition_html d)"
        "childNodes (to_dom ?e)" ?i3 "tagName (to_dom ?e)"] by (simp only:)
  have s2: "sublist (writexml ?entries ?i2) (writexml ?info ?i1)"
    by (rule writexml_child) simp
  have s1: "sublist (writexml ?info ?i1) (writexml (to_dom (glossary ?es)) [])"
    unfolding g by (rule writexml_child) simp
  from s4 s3 s2 s1 have "sublist (writexml ?def ?i4) (writexml (to_dom (glossary ?es)) [])"
    by (blast intro: sublist_chain)
  then show ?thesis by blast
qed

lemma definition_in_output:
  assumes "i < length rows" and "rows ! i = [c, d, t]"
  shows "sublist (py ''<DEFINITION>'' @ write_data (newlines (definition_html d)) @ py ''</DEFINITION>'')
           (toprettyxml (to_dom (glossary (map row_entry rows))))"
proof -
  let ?x = "py ''<DEFINITION>'' @ write_data (newlines (definition_html d)) @ py ''</DEFINITION>''"
  from definition_in_glossary [OF assms] obtain indent where
    s: "sublist (writexml (to_dom (SubElement_text ''DEFINITION'' (definition_html d))) indent)
          (writexml (to_dom (glossary (map row_entry rows))) [])" by blast
  have "sublist ?x (indent @ ?x @ newl)" by (rule sublist_appendI)
  then have "sublist ?x (writexml (to_dom (SubElement_text ''DEFINITION'' (definition_html d))) indent)"
    by (simp only: writexml_DEFINITION)
  with s have "sublist ?x (writexml (to_dom (glossary (map row_entry rows))) [])"
    by (blast intro: sublist_chain)
  then show ?thesis
    unfolding toprettyxml_def by (intro sublist_prepend)
qed

lemma iter_DEFINITION_alias: "iter (py ''DEFINITION'') (alias_element n) = []"
  by (simp add: alias_element_def iter_SubElement_text)

lemma iter_DEFINITION_entry:
  "iter (py ''DEFINITION'') (entry c d t) = [SubElement_text ''DEFINITION'' (definition_html d)]"
  by (simp add: entry_def iter_SubElement_text iter_DEFINITION_alias)

lemma iter_DEFINITION_glossary:
  "iter (py ''DEFINITION'') (glossary (map row_entry rows)) =
     map (\<lambda>r. SubElement_text ''DEFINITION'' (definition_html (r ! 1))) rows"
  by (simp add: glossary_def iter_SubElement_text iter_DEFINITION_entry map_concat comp_def row_entry_def)

text \<open>
  C9. When the input opens, the reader yields a header and rows of three fields, the
  parser accepts the document and the output path can be written, the run writes
  the serialised document and prints the success message. In the tree no
  \<^verbatim>\<open>DEFINITION\<close> element has a child element, and for every row the written text
  contains \<^verbatim>\<open><DEFINITION>\<close>, the escaped paragraph around the escaped definition
  and \<^verbatim>\<open></DEFINITION>\<close>: the opening of the paragraph is written
  \<^verbatim>\<open>&lt;p dir=&quot;ltr&quot; style=&quot;text-align: left;&quot;&gt;\<close>, its end
  \<^verbatim>\<open>&lt;br/&gt;&lt;/p&gt;\<close>, and no angle bracket stands between the two tags.
\<close>

theorem C9_definition_escaped:
  assumes "open_r fs (input_csv a) = Inr content"
    and "csv_reader l content = Inr header # map Inr rows"
    and "\<forall>r \<in> set rows. length r = 3"
    and "well_formed (glossary (map row_entry rows))"
    and "fs (output_xml_path a) = Absent \<or> fs (output_xml_path a) = File old"
    and "i < length rows"
    and "rows ! i = [concept, definition, tags]"
  shows \<open>\<exists>g out data.
           create_xml_structure (csv_reader l content) = Inr g \<and>
           list_all (\<lambda>e. children e = []) (iter (py ''DEFINITION'') g) \<and>
           out = toprettyxml (to_dom g) \<and>
           main l a fs =
             \<lparr>files = fs(output_xml_path a := File (encode l out)),
              stdout = [py ''Successfully converted '' @ quoted (input_csv a)
                        @ py '' to '' @ quoted (output_xml_path a)],
              status = Returned\<rparr> \<and>
           sublist (py ''<DEFINITION>'' @ data @ py ''</DEFINITION>'') out \<and>
           data = py ''&lt;p dir=&quot;ltr&quot; style=&quot;text-align: left;&quot;&gt;'' @
                  write_data (newlines definition) @ py ''&lt;br/&gt;&lt;/p&gt;'' \<and>
           0x3C \<notin> set data \<and> 0x3E \<notin> set data\<close>
proof -
  let ?g = "glossary (map row_entry rows)"
  let ?out = "toprettyxml (to_dom ?g)"
  let ?data = "write_data (newlines (definition_html definition))"
  have g: "create_xml_structure (csv_reader l content) = Inr ?g"
    by (simp only: assms(2) create_xml_structure_rows [OF assms(3)])
  have w: "open_w_write fs (output_xml_path a) (encode l ?out)
             = Inr (fs(output_xml_path a := File (encode l ?out)))"
    using assms(5) by (auto simp: open_w_write_def)
  have m: "main l a fs =
             \<lparr>files = fs(output_xml_path a := File (encode l ?out)),
              stdout = [py ''Successfully converted '' @ quoted (input_csv a)
                        @ py '' to '' @ quoted (output_xml_path a)],
              status = Returned\<rparr>"
    by (rule main_written [OF assms(1) g assms(4) w])
  have c: "list_all (\<lambda>e. children e = []) (iter (py ''DEFINITION'') ?g)"
    by (simp add: iter_DEFINITION_glossary list_all_iff SubElement_text_def)
  have s: "sublist (py ''<DEFINITION>'' @ ?data @ py ''</DEFINITION>'') ?out"
    using assms(6,7) by (rule definition_in_output)
  have d: \<open>?data = py ''&lt;p dir=&quot;ltr&quot; style=&quot;text-align: left;&quot;&gt;'' @
                  write_data (newlines definition) @ py ''&lt;br/&gt;&lt;/p&gt;''\<close>
    by (rule write_data_definition_html)
  have n: "0x3C \<notin> set ?data \<and> 0x3E \<notin> set ?data"
    by (rule write_data_no_angle)
  from g c m s d n show ?thesis
    by blast
qed

theorem C9_definition_escaped_witness:
  \<open>\<exists>out. files (main plain_lib \<lparr>input_csv = py ''terms.csv'', output_xml = None\<rparr>
               ((\<lambda>p. Absent)(py ''terms.csv'' :=
                  File (py ''term;definition;tags'' @ [0xA] @ py ''Cat;A small animal;animal, pet'' @ [0xA]))))
            (py ''terms.xml'') = File out \<and>
         sublist (py ''<DEFINITION>&lt;p dir=&quot;ltr&quot; style=&quot;text-align: left;&quot;&gt;A small animal&lt;br/&gt;&lt;/p&gt;</DEFINITION>'')
           out\<close>
proof -
  let ?text = "py ''term;definition;tags'' @ [0xA] @ py ''Cat;A small animal;animal, pet'' @ [0xA]"
  let ?fs = "(\<lambda>p. Absent)(py ''terms.csv'' := File ?text)"
  let ?a = "\<lparr>input_csv = py ''terms.csv'', output_xml = None\<rparr>"
  let ?header = "[py ''term'', py ''definition'', py ''tags'']"
  let ?rows = "[[py ''Cat'', py ''A small animal'', py ''animal, pet'']]"
  have r: "open_r ?fs (input_csv ?a) = Inr ?text"
    by (simp add: open_r_def)
  have rows: "csv_reader plain_lib ?text = Inr ?header # map Inr ?rows"
    by (simp only: plain_lib_def lib.select_convs plain_two_rows list.map)
  have three: "\<forall>r \<in> set ?rows. length r = 3"
    by simp
  have "extension_of (py ''terms.csv'') (py ''terms'') (py ''csv'')"
    by (simp add: extension_of_def basename_def rfind_def py_def dot_def slash_def)
  then have "splitext (py ''terms.csv'') = (py ''terms'', dot # py ''csv'')"
    by (rule splitext_extension)
  then have path: "output_xml_path ?a = py ''terms.xml''"
    by (simp add: output_xml_path_def py_def)
  have "?fs (py ''terms.xml'') = Absent"
    by simp
  then have absent: "?fs (output_xml_path ?a) = Absent \<or> ?fs (output_xml_path ?a) = File []"
    by (simp only: path) simp
  have i: "0 < length ?rows"
    by simp
  have row: "?rows ! 0 = [py ''Cat'', py ''A small animal'', py ''animal, pet'']"
    by simp
  have m: \<open>write_data (newlines (py ''A small animal'')) = py ''A small animal''\<close>
    by (simp add: write_data_def replace_def py_def)
  from C9_definition_escaped [OF r rows three well_formed_example absent i row]
  obtain out data where
    o: "main plain_lib ?a ?fs =
          \<lparr>files = ?fs(output_xml_path ?a := File (encode plain_lib out)),
           stdout = [py ''Successfully converted '' @ quoted (input_csv ?a)
                     @ py '' to '' @ quoted (output_xml_path ?a)],
           status = Returned\<rparr>" and
    s: "sublist (py ''<DEFINITION>'' @ data @ py ''</DEFINITION>'') out" and
    dt: \<open>data = py ''&lt;p dir=&quot;ltr&quot; style=&quot;text-align: left;&quot;&gt;'' @
                  write_data (newlines (py ''A small animal'')) @ py ''&lt;br/&gt;&lt;/p&gt;''\<close>
    by blast
  have \<open>py ''<DEFINITION>'' @ data @ py ''</DEFINITION>'' =
        py ''<DEFINITION>&lt;p dir=&quot;ltr&quot; style=&quot;text-align: left;&quot;&gt;A small animal&lt;br/&gt;&lt;/p&gt;</DEFINITION>''\<close>
    by (simp only: dt m) (simp add: py_def)
  with s have s': \<open>sublist (py ''<DEFINITION>&lt;p dir=&quot;ltr&quot; style=&quot;text-align: left;&quot;&gt;A small animal&lt;br/&gt;&lt;/p&gt;</DEFINITION>'') out\<close>
    by (simp only:)
  have "files (main plain_lib ?a ?fs) (py ''terms.xml'') = File out"
    by (simp only: o path outcome.select_convs fun_upd_same) (simp add: plain_lib_def)
  with s' show ?thesis
    by (intro exI [of _ out] conjI)
qed

end
